theory Spec2Isabelle
  imports Main "HOL-Library.Sublist"
begin

section \<open>Data model of client.py\<close>

text \<open>
  \<open>client.py\<close> is a sequential script around three external parties: the terminal, the
  tool-provider process (an MCP session) and the model API. The model below passes the
  trace of the calls made so far through every function, and takes the answers of the
  outside world from an environment; coroutines are run to completion where they are
  awaited, so \<open>await\<close> is an ordinary call.

  Python strings are modelled as \<open>string\<close>; the three emoji of the banners are written
  as their UTF-8 bytes. A stream of the model API is the finite list of events that
  iterating over it yields.
\<close>

text \<open>
  Exceptions. \<open>JSONDecodeError\<close> is the class the stream loop catches by name;
  \<open>Exception\<close> stands for every other class derived from Python's \<open>Exception\<close>
  (class name, message); \<open>BaseException\<close> for the classes that derive from
  \<open>BaseException\<close> only (KeyboardInterrupt, SystemExit, asyncio.CancelledError).
\<close>

datatype exn =
    JSONDecodeError string
  | Exception string string
  | BaseException string string

text \<open>\<open>isinstance(e, Exception)\<close>, the test of \<open>except Exception\<close>, and \<open>str(e)\<close>.\<close>

fun is_Exception :: "exn \<Rightarrow> bool" where
  "is_Exception (JSONDecodeError m) = True"
| "is_Exception (Exception c m) = True"
| "is_Exception (BaseException c m) = False"

fun str_exn :: "exn \<Rightarrow> string" where
  "str_exn (JSONDecodeError m) = m"
| "str_exn (Exception c m) = m"
| "str_exn (BaseException c m) = m"

datatype pyfloat = Finite int int | Infinity bool | NaN

datatype json =
    JNull
  | JBool bool
  | JInt int
  | JFloat pyfloat
  | JStr string
  | JList "json list"
  | JDict "(string \<times> json) list"

text \<open>A tool as \<open>list_tools\<close> reports it, and the dict built from it for the model API.\<close>

record tool =
  name :: string
  description :: "string option"
  inputSchema :: json

record tool_spec =
  spec_name :: string
  spec_description :: "string option"
  input_schema :: json

text \<open>A conversation message: the dict with keys role and content.\<close>

record message =
  role :: string
  content :: string

text \<open>An entry of \<open>tool_calls\<close>: the dict with keys id, name and input.\<close>

record tool_call =
  tc_id :: string
  tc_name :: string
  tc_input :: json

text \<open>
  Streaming events. The source dispatches on the strings \<open>chunk.type\<close>,
  \<open>chunk.content_block.type\<close> and \<open>chunk.delta.type\<close>; a type string that no
  branch tests is kept as \<open>Other...\<close>.
\<close>

datatype content_block = TextBlock | ToolUseBlock string string | OtherBlock string

datatype delta = TextDelta string | InputJsonDelta string | OtherDelta string

datatype chunk =
    MessageStart
  | ContentBlockStart content_block
  | ContentBlockDelta delta
  | ContentBlockStop
  | MessageDelta
  | MessageStop
  | OtherChunk string

text \<open>
  The result of \<open>session.call_tool\<close>: a list of content items, of which only a
  \<open>TextContent\<close> has a \<open>text\<close> attribute.
\<close>

datatype content_item = TextContent string | NonTextContent string

record call_tool_result =
  result_content :: "content_item list"

record create_request =
  model :: "string option"
  max_tokens :: nat
  req_messages :: "message list"
  tools :: "tool_spec list option"
  stream :: bool

text \<open>Values whose \<open>repr\<close> the program prints.\<close>

datatype pyval =
    VNames "string list"
  | VToolCall tool_call
  | VContent "content_item list"

text \<open>
  Every call that leaves the program is an action of the trace, in the order the
  program performs it. \<open>Sleep\<close> carries the delay in milliseconds.
\<close>

datatype action =
    NewAnthropic
  | EnterStdioClient string "string list"
  | EnterClientSession
  | Initialize
  | ListTools
  | CreateMessage create_request
  | JsonLoads string
  | CallTool string json
  | Write string
  | Flush
  | Sleep nat
  | Input string
  | AClose

text \<open>
  The environment: the library functions the program calls and, for every external
  call, the answer given after the history of actions so far (the call included).
  An answer \<open>Inl e\<close> (or \<open>Some e\<close>) is the exception the call raises.
\<close>

record env =
  getenv :: "string \<Rightarrow> string option"
  py_repr :: "pyval \<Rightarrow> string"
  loads :: "string \<Rightarrow> exn + json"
  reply_anthropic :: "action list \<Rightarrow> exn option"
  reply_enter :: "action list \<Rightarrow> exn option"
  reply_initialize :: "action list \<Rightarrow> exn option"
  reply_list_tools :: "action list \<Rightarrow> exn + tool list"
  reply_create :: "action list \<Rightarrow> exn + chunk list"
  reply_call_tool :: "action list \<Rightarrow> exn + call_tool_result"
  reply_input :: "action list \<Rightarrow> exn + string"
  reply_aclose :: "action list \<Rightarrow> exn option"

text \<open>\<open>self.session\<close> is \<open>None\<close> until \<open>connect_to_server\<close> sets it.\<close>

datatype session = ClientSession

record client =
  session :: "session option"

section \<open>Printing\<close>

definition nl :: string where
  "nl = [CHR 0x0A]"

definition robot :: string where
  "robot = [CHR 0xF0, CHR 0x9F, CHR 0xA4, CHR 0x96]"

definition speech :: string where
  "speech = [CHR 0xF0, CHR 0x9F, CHR 0x92, CHR 0xAC]"

definition wrench :: string where
  "wrench = [CHR 0xF0, CHR 0x9F, CHR 0x94, CHR 0xA7]"

text \<open>\<open>print(s)\<close> writes \<open>s\<close> and a newline.\<close>

definition py_print :: "string \<Rightarrow> action list \<Rightarrow> action list" where
  "py_print s tr = tr @ [Write (s @ nl)]"

text \<open>
  \<open>print_streaming_text\<close>: for each character, \<open>sys.stdout.write\<close>,
  \<open>sys.stdout.flush\<close>, \<open>time.sleep(delay)\<close>.
\<close>

fun print_streaming_text :: "string \<Rightarrow> nat \<Rightarrow> action list \<Rightarrow> action list" where
  "print_streaming_text [] delay tr = tr"
| "print_streaming_text (char # text) delay tr =
     print_streaming_text text delay (tr @ [Write [char], Flush, Sleep delay])"




section \<open>The first stream loop of process_query\<close>

record stream_state =
  tool_calls :: "tool_call list"
  current_tool_input :: string
  accumulated_text :: string

text \<open>\<open>tool_calls[-1]["input"] = v\<close>, reached only when \<open>tool_calls\<close> is not empty.\<close>

definition set_last_input :: "json \<Rightarrow> tool_call list \<Rightarrow> tool_call list" where
  "set_last_input v tcs = tcs[length tcs - 1 := (last tcs)\<lparr>tc_input := v\<rparr>]"

text \<open>
  The body of \<open>for chunk in stream\<close> for every event but \<open>message_stop\<close>. The
  result is the new state or the exception that leaves the loop, with the trace.
\<close>

fun on_chunk ::
  "env \<Rightarrow> chunk \<Rightarrow> stream_state \<Rightarrow> action list \<Rightarrow> (exn + stream_state) \<times> action list" where
  "on_chunk env MessageStart s tr = (Inr s, tr)"
| "on_chunk env (ContentBlockStart TextBlock) s tr = (Inr s, tr)"
| "on_chunk env (ContentBlockStart (ToolUseBlock i n)) s tr =
     (Inr (s\<lparr>tool_calls := tool_calls s @ [\<lparr>tc_id = i, tc_name = n, tc_input = JDict []\<rparr>],
             current_tool_input := []\<rparr>), tr)"
| "on_chunk env (ContentBlockStart (OtherBlock t)) s tr = (Inr s, tr)"
| "on_chunk env (ContentBlockDelta (TextDelta text_chunk)) s tr =
     (Inr (s\<lparr>accumulated_text := accumulated_text s @ text_chunk\<rparr>),
      print_streaming_text text_chunk 10 tr)"
| "on_chunk env (ContentBlockDelta (InputJsonDelta partial_json)) s tr =
     (if tool_calls s \<noteq> []
      then (Inr (s\<lparr>current_tool_input := current_tool_input s @ partial_json\<rparr>), tr)
      else (Inr s, tr))"
| "on_chunk env (ContentBlockDelta (OtherDelta t)) s tr = (Inr s, tr)"
| "on_chunk env ContentBlockStop s tr =
     (if tool_calls s \<noteq> [] \<and> current_tool_input s \<noteq> []
      then (let tr' = tr @ [JsonLoads (current_tool_input s)] in
            case loads env (current_tool_input s) of
              Inr v \<Rightarrow>
                (Inr (s\<lparr>tool_calls := set_last_input v (tool_calls s),
                        current_tool_input := []\<rparr>), tr')
            | Inl (JSONDecodeError m) \<Rightarrow>
                (Inr (s\<lparr>tool_calls := set_last_input (JDict []) (tool_calls s),
                        current_tool_input := []\<rparr>), tr')
            | Inl e \<Rightarrow> (Inl e, tr'))
      else (Inr (s\<lparr>current_tool_input := []\<rparr>), tr))"
| "on_chunk env MessageDelta s tr = (Inr s, tr)"
| "on_chunk env MessageStop s tr = (Inr s, tr)"
| "on_chunk env (OtherChunk t) s tr = (Inr s, tr)"

text \<open>The loop itself: \<open>message_stop\<close> breaks, an exception leaves the loop.\<close>

fun process_stream ::
  "env \<Rightarrow> chunk list \<Rightarrow> stream_state \<Rightarrow> action list \<Rightarrow> (exn + stream_state) \<times> action list" where
  "process_stream env [] s tr = (Inr s, tr)"
| "process_stream env (chunk # rest) s tr =
     (if chunk = MessageStop then (Inr s, tr)
      else case on_chunk env chunk s tr of
             (Inl e, tr') \<Rightarrow> (Inl e, tr')
           | (Inr s', tr') \<Rightarrow> process_stream env rest s' tr')"

definition init_stream_state :: stream_state where
  "init_stream_state = \<lparr>tool_calls = [], current_tool_input = [], accumulated_text = []\<rparr>"

section \<open>Tool calls and follow-up requests\<close>

text \<open>The loop over \<open>follow_up_stream\<close>: only text deltas are used, and nothing breaks.\<close>

fun follow_up_loop :: "chunk list \<Rightarrow> string \<Rightarrow> action list \<Rightarrow> string \<times> action list" where
  "follow_up_loop [] follow_up_text tr = (follow_up_text, tr)"
| "follow_up_loop (ContentBlockDelta (TextDelta text_chunk) # rest) follow_up_text tr =
     follow_up_loop rest (follow_up_text @ text_chunk) (print_streaming_text text_chunk 10 tr)"
| "follow_up_loop (chunk # rest) follow_up_text tr = follow_up_loop rest follow_up_text tr"

text \<open>
  \<open>result.content[0].text if hasattr(result.content[0], 'text') else str(result.content)\<close>;
  \<open>result.content[0]\<close> raises IndexError on an empty list.
\<close>

definition tool_result_text :: "env \<Rightarrow> call_tool_result \<Rightarrow> exn + string" where
  "tool_result_text env result =
     (case result_content result of
        [] \<Rightarrow> Inl (Exception ''IndexError'' ''list index out of range'')
      | TextContent t # _ \<Rightarrow> Inr t
      | NonTextContent d # _ \<Rightarrow> Inr (py_repr env (VContent (result_content result))))"

record loop_state =
  messages :: "message list"
  final_text :: "string list"
  tool_results :: "(string \<times> call_tool_result) list"

definition assistant_content :: "string \<Rightarrow> string \<Rightarrow> string" where
  "assistant_content acc_text tool_name =
     (if acc_text \<noteq> [] then acc_text
      else ''I'' @ [CHR 0x27] @ ''ll use the '' @ tool_name @ '' tool.'')"

definition follow_up_request :: "env \<Rightarrow> message list \<Rightarrow> create_request" where
  "follow_up_request env msgs =
     \<lparr>model = getenv env ''ANTHROPIC_MODEL'', max_tokens = 1000, req_messages = msgs,
      tools = None, stream = True\<rparr>"

text \<open>The body of \<open>for tool_call in tool_calls\<close>.\<close>

definition tool_call_body ::
  "env \<Rightarrow> string \<Rightarrow> tool_call \<Rightarrow> loop_state \<Rightarrow> action list \<Rightarrow> (exn + loop_state) \<times> action list" where
  "tool_call_body env acc_text tool_call ls tr =
     (let tool_name = tc_name tool_call;
          tool_args = tc_input tool_call;
          tr1 = py_print (nl @ nl @ wrench @ '' Calling tool '' @ py_repr env (VToolCall tool_call) @ ''...'') tr;
          tr2 = tr1 @ [CallTool tool_name tool_args]
      in case reply_call_tool env tr2 of
           Inl e \<Rightarrow> (Inl e, tr2)
         | Inr result \<Rightarrow>
             (case tool_result_text env result of
                Inl e \<Rightarrow> (Inl e, tr2)
              | Inr tool_result \<Rightarrow>
                  (let tr3 = py_print (nl @ wrench @ '' Tool '' @ tool_name @ '' returned: '' @ nl @ tool_result) tr2;
                       msgs = messages ls @
                              [\<lparr>role = ''assistant'', content = assistant_content acc_text tool_name\<rparr>,
                               \<lparr>role = ''user'', content = tool_result\<rparr>];
                       tr4 = py_print (nl @ robot @ '' Processing tool result...'') tr3;
                       tr5 = tr4 @ [Write (nl @ speech @ '' '')];
                       tr6 = tr5 @ [CreateMessage (follow_up_request env msgs)]
                   in case reply_create env tr6 of
                        Inl e \<Rightarrow> (Inl e, tr6)
                      | Inr follow_up_stream \<Rightarrow>
                          (case follow_up_loop follow_up_stream [] tr6 of
                             (follow_up_text, tr7) \<Rightarrow>
                               (Inr \<lparr>messages = msgs,
                                     final_text = final_text ls @
                                       (if follow_up_text \<noteq> [] then [follow_up_text] else []),
                                     tool_results = tool_results ls @ [(tool_name, result)]\<rparr>,
                                tr7)))))"

fun tool_calls_loop ::
  "env \<Rightarrow> string \<Rightarrow> tool_call list \<Rightarrow> loop_state \<Rightarrow> action list \<Rightarrow> (exn + loop_state) \<times> action list" where
  "tool_calls_loop env acc_text [] ls tr = (Inr ls, tr)"
| "tool_calls_loop env acc_text (tool_call # rest) ls tr =
     (case tool_call_body env acc_text tool_call ls tr of
        (Inl e, tr') \<Rightarrow> (Inl e, tr')
      | (Inr ls', tr') \<Rightarrow> tool_calls_loop env acc_text rest ls' tr')"

section \<open>process_query\<close>

text \<open>\<open>"\n".join(final_text)\<close>.\<close>

fun join_lines :: "string list \<Rightarrow> string" where
  "join_lines [] = []"
| "join_lines [x] = x"
| "join_lines (x # y # ys) = x @ nl @ join_lines (y # ys)"

definition tool_to_spec :: "tool \<Rightarrow> tool_spec" where
  "tool_to_spec t =
     \<lparr>spec_name = name t, spec_description = description t, input_schema = inputSchema t\<rparr>"

definition first_request :: "env \<Rightarrow> message list \<Rightarrow> tool_spec list \<Rightarrow> create_request" where
  "first_request env msgs available_tools =
     \<lparr>model = getenv env ''ANTHROPIC_MODEL'', max_tokens = 1000, req_messages = msgs,
      tools = Some available_tools, stream = True\<rparr>"

definition process_query ::
  "env \<Rightarrow> client \<Rightarrow> string \<Rightarrow> action list \<Rightarrow> (exn + string) \<times> action list" where
  "process_query env self query tr =
     (let msgs = [\<lparr>role = ''user'', content = query\<rparr>] in
      case session self of
        None \<Rightarrow> (Inl (Exception ''AttributeError''
                     ([CHR 0x27] @ ''NoneType'' @ [CHR 0x27] @ '' object has no attribute '' @
                      [CHR 0x27] @ ''list_tools'' @ [CHR 0x27])), tr)
      | Some sess \<Rightarrow>
          (let tr1 = tr @ [ListTools] in
           case reply_list_tools env tr1 of
             Inl e \<Rightarrow> (Inl e, tr1)
           | Inr response_tools \<Rightarrow>
               (let available_tools = map tool_to_spec response_tools;
                    tr2 = py_print (nl @ robot @ '' Claude is thinking...'') tr1;
                    tr3 = tr2 @ [CreateMessage (first_request env msgs available_tools)]
                in case reply_create env tr3 of
                     Inl e \<Rightarrow> (Inl e, tr3)
                   | Inr chunks \<Rightarrow>
                       (let tr4 = tr3 @ [Write (nl @ speech @ '' '')] in
                        case process_stream env chunks init_stream_state tr4 of
                          (Inl e, tr5) \<Rightarrow> (Inl e, tr5)
                        | (Inr s, tr5) \<Rightarrow>
                            (let ft = (if accumulated_text s \<noteq> [] then [accumulated_text s] else [])
                             in case tool_calls_loop env (accumulated_text s) (tool_calls s)
                                       \<lparr>messages = msgs, final_text = ft, tool_results = []\<rparr> tr5 of
                                  (Inl e, tr6) \<Rightarrow> (Inl e, tr6)
                                | (Inr ls, tr6) \<Rightarrow>
                                    (Inr (join_lines (final_text ls)), py_print nl tr6))))))"

section \<open>connect_to_server, chat_loop, cleanup and main\<close>

definition connect_to_server :: "env \<Rightarrow> client \<Rightarrow> action list \<Rightarrow> (exn + client) \<times> action list" where
  "connect_to_server env self tr =
     (let tr1 = tr @ [EnterStdioClient ''uvx''
                       [''mcp-server-fetch'', ''--ignore-robots-txt'', ''--proxy-url'',
                        ''http://127.0.0.1:7897'']] in
      case reply_enter env tr1 of
        Some e \<Rightarrow> (Inl e, tr1)
      | None \<Rightarrow>
          (let tr2 = tr1 @ [EnterClientSession] in
           case reply_enter env tr2 of
             Some e \<Rightarrow> (Inl e, tr2)
           | None \<Rightarrow>
               (let self' = self\<lparr>session := Some ClientSession\<rparr>;
                    tr3 = tr2 @ [Initialize] in
                case reply_initialize env tr3 of
                  Some e \<Rightarrow> (Inl e, tr3)
                | None \<Rightarrow>
                    (let tr4 = tr3 @ [ListTools] in
                     case reply_list_tools env tr4 of
                       Inl e \<Rightarrow> (Inl e, tr4)
                     | Inr ts \<Rightarrow>
                         (Inr self',
                          py_print (nl @ ''Connected to server with tools: '' @
                                    py_repr env (VNames (map name ts))) tr4)))))"

text \<open>
  \<open>str.strip()\<close> and \<open>str.lower()\<close> on the ASCII range: the whitespace characters
  of \<open>str.isspace\<close> are 0x09 to 0x0D, 0x1C to 0x1F and the space, and the letters
  A to Z are the ones \<open>lower\<close> changes. Bytes outside ASCII are left as they are.
\<close>

definition isspace :: "char \<Rightarrow> bool" where
  "isspace c = (let n = (of_char c :: nat) in (9 \<le> n \<and> n \<le> 13) \<or> (28 \<le> n \<and> n \<le> 32))"

definition strip :: "string \<Rightarrow> string" where
  "strip s = rev (dropWhile isspace (rev (dropWhile isspace s)))"

definition lower_char :: "char \<Rightarrow> char" where
  "lower_char c = (let n = (of_char c :: nat) in if 65 \<le> n \<and> n \<le> 90 then char_of (n + 32) else c)"

definition lower :: "string \<Rightarrow> string" where
  "lower s = map lower_char s"

text \<open>
  The \<open>while True\<close> loop may run forever (at end of input \<open>input()\<close> raises EOFError at
  every iteration, which the handler prints), so it takes fuel: the number of iterations
  it may start. \<open>None\<close> is the loop still running when the fuel is spent.
\<close>

fun chat_loop_while ::
  "env \<Rightarrow> client \<Rightarrow> nat \<Rightarrow> action list \<Rightarrow> ((exn + unit) \<times> action list) option" where
  "chat_loop_while env self 0 tr = None"
| "chat_loop_while env self (Suc fuel) tr =
     (let tr1 = tr @ [Input (nl @ ''Query: '')] in
      case reply_input env tr1 of
        Inl e \<Rightarrow>
          (if is_Exception e
           then chat_loop_while env self fuel (py_print (nl @ ''Error: '' @ str_exn e) tr1)
           else Some (Inl e, tr1))
      | Inr line \<Rightarrow>
          (let query = strip line in
           if lower query = ''quit'' then Some (Inr (), tr1)
           else case process_query env self query tr1 of
                  (Inl e, tr2) \<Rightarrow>
                    (if is_Exception e
                     then chat_loop_while env self fuel (py_print (nl @ ''Error: '' @ str_exn e) tr2)
                     else Some (Inl e, tr2))
                | (Inr response, tr2) \<Rightarrow>
                    chat_loop_while env self fuel (py_print (nl @ response) tr2)))"

definition chat_loop ::
  "env \<Rightarrow> client \<Rightarrow> nat \<Rightarrow> action list \<Rightarrow> ((exn + unit) \<times> action list) option" where
  "chat_loop env self fuel tr =
     chat_loop_while env self fuel
       (py_print (''Type your queries or '' @ [CHR 0x27] @ ''quit'' @ [CHR 0x27] @ '' to exit.'')
          (py_print (nl @ ''MCP Client Started!'') tr))"

definition cleanup :: "env \<Rightarrow> action list \<Rightarrow> exn option \<times> action list" where
  "cleanup env tr = (let tr1 = tr @ [AClose] in (reply_aclose env tr1, tr1))"

text \<open>
  \<open>try: ... finally: await client.cleanup()\<close>: the result of the body is kept unless
  cleanup itself raises.
\<close>

definition finally_cleanup ::
  "env \<Rightarrow> (exn + unit) \<times> action list \<Rightarrow> (exn + unit) \<times> action list" where
  "finally_cleanup env r =
     (case cleanup env (snd r) of
        (Some e, tr) \<Rightarrow> (Inl e, tr)
      | (None, tr) \<Rightarrow> (fst r, tr))"

definition main :: "env \<Rightarrow> nat \<Rightarrow> ((exn + unit) \<times> action list) option" where
  "main env fuel =
     (let tr0 = [NewAnthropic] in
      case reply_anthropic env tr0 of
        Some e \<Rightarrow> Some (Inl e, tr0)
      | None \<Rightarrow>
          (let self = \<lparr>session = None\<rparr> in
           case connect_to_server env self tr0 of
             (Inl e, tr1) \<Rightarrow> Some (finally_cleanup env (Inl e, tr1))
           | (Inr self', tr1) \<Rightarrow>
               (case chat_loop env self' fuel tr1 of
                  None \<Rightarrow> None
                | Some r \<Rightarrow> Some (finally_cleanup env r))))"

section \<open>Observations on traces and streams\<close>


fun is_Input :: "action \<Rightarrow> bool" where
  "is_Input (Input p) = True"
| "is_Input a = False"


fun is_CreateMessage :: "action \<Rightarrow> bool" where
  "is_CreateMessage (CreateMessage r) = True"
| "is_CreateMessage a = False"


fun is_AClose :: "action \<Rightarrow> bool" where
  "is_AClose AClose = True"
| "is_AClose a = False"


text \<open>Actions that stay inside the process: terminal output, pauses and parsing.\<close>

fun is_local :: "action \<Rightarrow> bool" where
  "is_local (Write s) = True"
| "is_local Flush = True"
| "is_local (Sleep d) = True"
| "is_local (JsonLoads t) = True"
| "is_local a = False"

text \<open>What one iteration of the loop over the tool calls may do.\<close>

fun is_step_action :: "action \<Rightarrow> bool" where
  "is_step_action (CallTool n a) = True"
| "is_step_action (CreateMessage r) = True"
| "is_step_action a = is_local a"

text \<open>
  A complete tool_use block as the model API streams it: the start event, the
  argument fragments, the stop event.
\<close>

definition tool_use_block :: "string \<Rightarrow> string \<Rightarrow> string list \<Rightarrow> chunk list" where
  "tool_use_block i n fs =
     ContentBlockStart (ToolUseBlock i n) # map (\<lambda>f. ContentBlockDelta (InputJsonDelta f)) fs @
     [ContentBlockStop]"



text \<open>The text a stream carries: its text deltas, concatenated in order.\<close>

fun stream_text :: "chunk list \<Rightarrow> string" where
  "stream_text [] = []"
| "stream_text (ContentBlockDelta (TextDelta t) # rest) = t @ stream_text rest"
| "stream_text (c # rest) = stream_text rest"

text \<open>What the loop over a follow-up stream prints.\<close>

fun stream_actions :: "chunk list \<Rightarrow> action list" where
  "stream_actions [] = []"
| "stream_actions (ContentBlockDelta (TextDelta t) # rest) =
     concat (map (\<lambda>c. [Write [c], Flush, Sleep 10]) t) @ stream_actions rest"
| "stream_actions (c # rest) = stream_actions rest"

text \<open>
  The environment as it answers after a history: the same library functions, and to
  every continuation of the history the answer the environment gives to the whole.
\<close>

definition env_after :: "env \<Rightarrow> action list \<Rightarrow> env" where
  "env_after env tr =
     env\<lparr>reply_anthropic := (\<lambda>h. reply_anthropic env (tr @ h)),
         reply_enter := (\<lambda>h. reply_enter env (tr @ h)),
         reply_initialize := (\<lambda>h. reply_initialize env (tr @ h)),
         reply_list_tools := (\<lambda>h. reply_list_tools env (tr @ h)),
         reply_create := (\<lambda>h. reply_create env (tr @ h)),
         reply_call_tool := (\<lambda>h. reply_call_tool env (tr @ h)),
         reply_input := (\<lambda>h. reply_input env (tr @ h)),
         reply_aclose := (\<lambda>h. reply_aclose env (tr @ h))\<rparr>"

section \<open>Sample environments\<close>

text \<open>A small parser standing for \<open>json.loads\<close> on three texts; every other text is rejected.\<close>

definition demo_loads :: "string \<Rightarrow> exn + json" where
  "demo_loads t =
     (if t = ''{}'' then Inr (JDict [])
      else if t = ''[1]'' then Inr (JList [JInt 1])
      else if t = ''7'' then Inr (JInt 7)
      else Inl (JSONDecodeError ''Expecting value''))"

definition demo_tool :: tool where
  "demo_tool = \<lparr>name = ''fetch'', description = Some ''Fetches a URL'', inputSchema = JDict []\<rparr>"

definition connected :: client where
  "connected = \<lparr>session = Some ClientSession\<rparr>"

text \<open>
  An environment in which every external call succeeds, the model answers with an empty
  stream and every line read is \<open>quit\<close>.
\<close>

definition quiet_env :: env where
  "quiet_env =
     \<lparr>getenv = (\<lambda>k. if k = ''ANTHROPIC_MODEL'' then Some ''m'' else None),
      py_repr = (\<lambda>v. ''<repr>''),
      loads = demo_loads,
      reply_anthropic = (\<lambda>tr. None),
      reply_enter = (\<lambda>tr. None),
      reply_initialize = (\<lambda>tr. None),
      reply_list_tools = (\<lambda>tr. Inr [demo_tool]),
      reply_create = (\<lambda>tr. Inr []),
      reply_call_tool = (\<lambda>tr. Inr \<lparr>result_content = [TextContent ''page'']\<rparr>),
      reply_input = (\<lambda>tr. Inr ''quit''),
      reply_aclose = (\<lambda>tr. None)\<rparr>"

text \<open>
  A scripted environment: the k-th call of \<open>input()\<close> reads the k-th entry of
  \<open>inputs\<close> (EOFError once they are used up), the k-th request to the model is answered
  by the k-th entry of \<open>streams\<close> (an empty stream afterwards); everything else is as
  in \<open>quiet_env\<close>.
\<close>

definition nth_reply :: "'a list \<Rightarrow> nat \<Rightarrow> 'a \<Rightarrow> 'a" where
  "nth_reply xs k d = (if k < length xs then xs ! k else d)"

definition script_env :: "(exn + string) list \<Rightarrow> (exn + chunk list) list \<Rightarrow> env" where
  "script_env inputs streams =
     quiet_env
       \<lparr>reply_create := (\<lambda>tr. nth_reply streams (length (filter is_CreateMessage tr) - 1) (Inr [])),
        reply_input := (\<lambda>tr. nth_reply inputs (length (filter is_Input tr) - 1)
                          (Inl (Exception ''EOFError'' ''EOF when reading a line'')))\<rparr>"

text \<open>
  An environment in which the listing of the tools inside \<open>process_query\<close> is
  cancelled: \<open>asyncio.CancelledError\<close> derives from \<open>BaseException\<close> only.
\<close>

definition cancel_env :: env where
  "cancel_env =
     (script_env [Inr ''hello''] [])
       \<lparr>reply_list_tools := (\<lambda>tr. Inl (BaseException ''CancelledError'' ''''))\<rparr>"

text \<open>An environment in which the handshake fails at \<open>session.initialize()\<close>.\<close>

definition refused_env :: env where
  "refused_env =
     quiet_env\<lparr>reply_initialize := (\<lambda>tr. Some (Exception ''McpError'' ''Connection closed''))\<rparr>"



text \<open>
  An environment whose model answers a request that offers tools with one tool_use
  block, and a request without tools with a short text: its answers depend on the last
  request only.
\<close>

definition asks_with_tools :: "action list \<Rightarrow> bool" where
  "asks_with_tools tr =
     (case rev tr of
        CreateMessage r # _ \<Rightarrow> tools r \<noteq> None
      | _ \<Rightarrow> False)"

definition tool_then_text_env :: env where
  "tool_then_text_env =
     quiet_env
       \<lparr>reply_create := (\<lambda>tr. if asks_with_tools tr
                                then Inr (tool_use_block ''t1'' ''fetch'' [''{}''] @ [MessageStop])
                                else Inr [ContentBlockDelta (TextDelta ''ok'')])\<rparr>"

section \<open>Verification\<close>

subsection \<open>print_streaming_text\<close>

lemma print_streaming_text_actions:
  "print_streaming_text s delay tr = tr @ concat (map (\<lambda>c. [Write [c], Flush, Sleep delay]) s)"
  by (induction s arbitrary: tr) auto





subsection \<open>The stream loop: accumulation of tool arguments\<close>









subsection \<open>The stream loop: malformed arguments\<close>






subsection \<open>The chat loop: fuel\<close>

text \<open>
  A run that ends with some fuel ends in the same way with any larger amount: the result
  is the one of the program, not of the bound.
\<close>

lemma chat_loop_while_more_fuel:
  "chat_loop_while env self n tr = Some r \<Longrightarrow> chat_loop_while env self (n + k) tr = Some r"
proof (induction n arbitrary: tr)
  case 0
  then show ?case by simp
next
  case (Suc n)
  then show ?case
    by (auto simp: Let_def split: sum.splits if_splits prod.splits)
qed

lemma chat_loop_more_fuel:
  "chat_loop env self n tr = Some r \<Longrightarrow> chat_loop env self (n + k) tr = Some r"
  by (simp add: chat_loop_def chat_loop_while_more_fuel)

lemma main_more_fuel:
  assumes "main env n = Some r"
  shows "main env (n + k) = Some r"
proof (cases "reply_anthropic env [NewAnthropic]")
  case (Some e)
  with assms show ?thesis by (simp add: main_def)
next
  case None
  obtain rc trc where c: "connect_to_server env \<lparr>session = None\<rparr> [NewAnthropic] = (rc, trc)"
    by (cases "connect_to_server env \<lparr>session = None\<rparr> [NewAnthropic]")
  show ?thesis
  proof (cases rc)
    case (Inl e)
    with assms None c show ?thesis by (simp add: main_def)
  next
    case (Inr self')
    with assms None c obtain res where l: "chat_loop env self' n trc = Some res"
      and r: "r = finally_cleanup env res"
      by (auto simp: main_def split: option.splits)
    from chat_loop_more_fuel[OF l, of k] None c Inr r show ?thesis
      by (simp add: main_def)
  qed
qed

subsection \<open>The chat loop: quit and queries\<close>







subsection \<open>What each part of process_query adds to the trace\<close>

lemma char_actions_local:
  "\<forall>a \<in> set (concat (map (\<lambda>c. [Write [c], Flush, Sleep delay]) s)). is_local a"
  by (induction s) auto

lemma print_streaming_text_local:
  "\<exists>acts. print_streaming_text s delay tr = tr @ acts \<and> (\<forall>a \<in> set acts. is_local a)"
  using print_streaming_text_actions char_actions_local by blast

lemma on_chunk_local:
  "\<exists>acts. snd (on_chunk env c s tr) = tr @ acts \<and> (\<forall>a \<in> set acts. is_local a)"
proof (cases "(env, c, s, tr)" rule: on_chunk.cases)
  case (5 env' text_chunk s' tr')
  then show ?thesis using print_streaming_text_local[of text_chunk 10 tr] by simp
next
  case (8 env' s' tr')
  then show ?thesis by (auto simp: Let_def split: sum.splits exn.splits)
qed auto

lemma process_stream_local:
  "\<exists>acts. snd (process_stream env cs s tr) = tr @ acts \<and> (\<forall>a \<in> set acts. is_local a)"
proof (induction cs arbitrary: s tr)
  case Nil
  then show ?case by simp
next
  case (Cons c cs)
  show ?case
  proof (cases "c = MessageStop")
    case True
    then show ?thesis by simp
  next
    case False
    obtain r tr1 where oc: "on_chunk env c s tr = (r, tr1)" by (cases "on_chunk env c s tr")
    from on_chunk_local[of env c s tr] oc obtain a1 where
      a1: "tr1 = tr @ a1" "\<forall>a \<in> set a1. is_local a" by auto
    show ?thesis
    proof (cases r)
      case (Inl e)
      with oc False a1 show ?thesis by simp
    next
      case (Inr s1)
      from Cons.IH[of s1 tr1] obtain a2 where
        a2: "snd (process_stream env cs s1 tr1) = tr1 @ a2" "\<forall>a \<in> set a2. is_local a" by auto
      have "snd (process_stream env (c # cs) s tr) = tr @ (a1 @ a2)"
        using oc False Inr a1 a2 by simp
      moreover have "\<forall>a \<in> set (a1 @ a2). is_local a" using a1 a2 by auto
      ultimately show ?thesis by blast
    qed
  qed
qed


lemma follow_up_loop_local:
  "\<exists>acts. snd (follow_up_loop cs t tr) = tr @ acts \<and> (\<forall>a \<in> set acts. is_local a)"
proof (induction cs t tr rule: follow_up_loop.induct)
  case (2 text_chunk rest follow_up_text tr)
  from print_streaming_text_local[of text_chunk 10 tr] obtain a1 where
    a1: "print_streaming_text text_chunk 10 tr = tr @ a1" "\<forall>a \<in> set a1. is_local a" by auto
  from 2 obtain a2 where
    a2: "snd (follow_up_loop rest (follow_up_text @ text_chunk) (print_streaming_text text_chunk 10 tr)) =
           print_streaming_text text_chunk 10 tr @ a2" "\<forall>a \<in> set a2. is_local a" by auto
  have "snd (follow_up_loop (ContentBlockDelta (TextDelta text_chunk) # rest) follow_up_text tr) = tr @ (a1 @ a2)"
    using a1 a2 by simp
  moreover have "\<forall>a \<in> set (a1 @ a2). is_local a" using a1 a2 by auto
  ultimately show ?case by blast
qed simp_all




lemma is_local_step: "is_local a \<Longrightarrow> is_step_action a"
  by (cases a) auto

lemma tool_call_body_acts:
  "\<exists>acts. snd (tool_call_body env acc tc ls tr) = tr @ acts \<and> (\<forall>a \<in> set acts. is_step_action a)"
proof -
  have fu: "\<exists>acts. b = t @ acts \<and> (\<forall>a \<in> set acts. is_step_action a)"
    if "follow_up_loop cs [] t = (x, b)" for cs t x b
    using follow_up_loop_local[of cs "[]" t] that is_local_step by auto
  show ?thesis
    unfolding tool_call_body_def Let_def py_print_def
    apply (simp split: sum.splits prod.splits)
    apply (intro allI impI conjI)
    apply (auto dest!: fu)
    done
qed

lemma tool_calls_loop_acts:
  "\<exists>acts. snd (tool_calls_loop env acc tcs ls tr) = tr @ acts \<and> (\<forall>a \<in> set acts. is_step_action a)"
proof (induction tcs arbitrary: ls tr)
  case Nil
  then show ?case by simp
next
  case (Cons tc tcs)
  obtain r tr1 where b: "tool_call_body env acc tc ls tr = (r, tr1)"
    by (cases "tool_call_body env acc tc ls tr")
  from tool_call_body_acts[of env acc tc ls tr] b obtain a1 where
    a1: "tr1 = tr @ a1" "\<forall>a \<in> set a1. is_step_action a" by auto
  show ?case
  proof (cases r)
    case (Inl e)
    with b a1 show ?thesis by simp
  next
    case (Inr ls1)
    from Cons.IH[of ls1 tr1] obtain a2 where
      a2: "snd (tool_calls_loop env acc tcs ls1 tr1) = tr1 @ a2" "\<forall>a \<in> set a2. is_step_action a" by auto
    have "snd (tool_calls_loop env acc (tc # tcs) ls tr) = tr @ (a1 @ a2)"
      using b Inr a1 a2 by simp
    moreover have "\<forall>a \<in> set (a1 @ a2). is_step_action a" using a1 a2 by auto
    ultimately show ?thesis by blast
  qed
qed


lemma process_query_acts:
  assumes "session self = Some sess"
  shows "\<exists>acts. snd (process_query env self q tr) = tr @ ListTools # acts \<and>
           (\<forall>a \<in> set acts. is_step_action a)"
proof -
  have ps: "\<exists>acts. b = t @ acts \<and> (\<forall>a \<in> set acts. is_step_action a)"
    if "process_stream env cs s0 t = (r, b)" for cs s0 t r b
    using process_stream_local[of env cs s0 t] that is_local_step by auto
  have tl: "\<exists>acts. b = t @ acts \<and> (\<forall>a \<in> set acts. is_step_action a)"
    if "tool_calls_loop env acc tcs ls0 t = (r, b)" for acc tcs ls0 t r b
    using tool_calls_loop_acts[of env acc tcs ls0 t] that by auto
  show ?thesis
    unfolding process_query_def Let_def py_print_def using assms
    apply (simp split: sum.splits prod.splits)
    apply (intro allI impI conjI)
    apply (auto dest!: ps tl)
    done
qed

lemma process_query_not_connected:
  "session self = None \<Longrightarrow> snd (process_query env self q tr) = tr"
  by (simp add: process_query_def)


lemma filter_none: "(\<forall>a \<in> set xs. \<not> p a) \<Longrightarrow> filter p xs = []"
  by (induction xs) auto



subsection \<open>Tool discovery\<close>




subsection \<open>The chat loop: exceptions\<close>








subsection \<open>Cleanup\<close>

lemma step_action_not_AClose: "is_step_action a \<Longrightarrow> \<not> is_AClose a"
  by (cases a) auto

lemma process_query_no_AClose:
  "\<exists>acts. snd (process_query env self q tr) = tr @ acts \<and> (\<forall>a \<in> set acts. \<not> is_AClose a)"
proof (cases "session self")
  case None
  then show ?thesis using process_query_not_connected[of self env q tr] by simp
next
  case (Some sess)
  from process_query_acts[OF Some, of env q tr] obtain acts where
    "snd (process_query env self q tr) = tr @ ListTools # acts" "\<forall>a \<in> set acts. is_step_action a"
    by auto
  then have "snd (process_query env self q tr) = tr @ (ListTools # acts)
             \<and> (\<forall>a \<in> set (ListTools # acts). \<not> is_AClose a)"
    using step_action_not_AClose by auto
  then show ?thesis by blast
qed

lemma chat_loop_while_no_AClose:
  "chat_loop_while env self fuel tr = Some (r, tr') \<Longrightarrow>
   \<exists>acts. tr' = tr @ acts \<and> (\<forall>a \<in> set acts. \<not> is_AClose a)"
proof (induction fuel arbitrary: tr)
  case 0
  then show ?case by simp
next
  case (Suc fuel)
  let ?tr1 = "tr @ [Input (nl @ ''Query: '')]"
  show ?case
  proof (cases "reply_input env ?tr1")
    case (Inl e)
    show ?thesis
    proof (cases "is_Exception e")
      case True
      with Suc.prems Inl have
        "chat_loop_while env self fuel (?tr1 @ [Write (nl @ ''Error: '' @ str_exn e @ nl)]) = Some (r, tr')"
        by (simp add: Let_def py_print_def)
      from Suc.IH[OF this] obtain acts where
        "tr' = (?tr1 @ [Write (nl @ ''Error: '' @ str_exn e @ nl)]) @ acts" "\<forall>a \<in> set acts. \<not> is_AClose a"
        by blast
      then have "tr' = tr @ ([Input (nl @ ''Query: ''), Write (nl @ ''Error: '' @ str_exn e @ nl)] @ acts)
                 \<and> (\<forall>a \<in> set ([Input (nl @ ''Query: ''), Write (nl @ ''Error: '' @ str_exn e @ nl)] @ acts). \<not> is_AClose a)"
        by simp
      then show ?thesis by blast
    next
      case False
      with Suc.prems Inl have "tr' = tr @ [Input (nl @ ''Query: '')]" by (simp add: Let_def)
      then show ?thesis by auto
    qed
  next
    case (Inr line)
    show ?thesis
    proof (cases "lower (strip line) = ''quit''")
      case True
      with Suc.prems Inr have "tr' = tr @ [Input (nl @ ''Query: '')]" by (simp add: Let_def)
      then show ?thesis by auto
    next
      case False
      obtain res trq where pq: "process_query env self (strip line) ?tr1 = (res, trq)"
        by (cases "process_query env self (strip line) ?tr1")
      from process_query_no_AClose[of env self "strip line" ?tr1] pq obtain a1 where
        a1: "trq = ?tr1 @ a1" "\<forall>a \<in> set a1. \<not> is_AClose a" by auto
      show ?thesis
      proof (cases "\<exists>e. res = Inl e \<and> \<not> is_Exception e")
        case True
        with Suc.prems Inr False pq have "tr' = trq" by (auto simp: Let_def)
        with a1 have "tr' = tr @ (Input (nl @ ''Query: '') # a1)
                      \<and> (\<forall>a \<in> set (Input (nl @ ''Query: '') # a1). \<not> is_AClose a)" by simp
        then show ?thesis by blast
      next
        case no_escape: False
        then obtain w where "chat_loop_while env self fuel (trq @ [Write w]) = Some (r, tr')"
          using Suc.prems Inr False pq by (cases res) (auto simp: Let_def py_print_def)
        from Suc.IH[OF this] obtain a2 where
          a2: "tr' = (trq @ [Write w]) @ a2" "\<forall>a \<in> set a2. \<not> is_AClose a" by blast
        with a1 have "tr' = tr @ (Input (nl @ ''Query: '') # a1 @ Write w # a2)
                      \<and> (\<forall>a \<in> set (Input (nl @ ''Query: '') # a1 @ Write w # a2). \<not> is_AClose a)" by auto
        then show ?thesis by blast
      qed
    qed
  qed
qed

lemma connect_to_server_no_AClose:
  "\<exists>acts. snd (connect_to_server env self tr) = tr @ acts \<and> (\<forall>a \<in> set acts. \<not> is_AClose a)"
  unfolding connect_to_server_def Let_def py_print_def
  by (auto split: option.splits sum.splits)

lemma finally_cleanup_trace: "snd (finally_cleanup env r) = snd r @ [AClose]"
  by (simp add: finally_cleanup_def cleanup_def Let_def split: option.splits)

lemma main_trace:
  assumes "main env fuel = Some (r, tr)" and "reply_anthropic env [NewAnthropic] = None"
  shows "\<exists>acts. tr = acts @ [AClose] \<and> (\<forall>a \<in> set acts. \<not> is_AClose a)"
proof -
  obtain rc trc where c: "connect_to_server env \<lparr>session = None\<rparr> [NewAnthropic] = (rc, trc)"
    by (cases "connect_to_server env \<lparr>session = None\<rparr> [NewAnthropic]")
  from connect_to_server_no_AClose[of env "\<lparr>session = None\<rparr>" "[NewAnthropic]"] c obtain a1 where
    a1: "trc = [NewAnthropic] @ a1" "\<forall>a \<in> set a1. \<not> is_AClose a" by auto
  show ?thesis
  proof (cases rc)
    case (Inl e)
    with assms c have "tr = snd (finally_cleanup env (Inl e, trc))"
      by (auto simp: main_def Let_def)
    then have "tr = trc @ [AClose]" by (simp add: finally_cleanup_trace)
    with a1 show ?thesis by auto
  next
    case (Inr self')
    with assms c obtain res where l: "chat_loop env self' fuel trc = Some res"
      and t: "tr = snd (finally_cleanup env res)"
      by (auto simp: main_def Let_def split: option.splits)
    obtain rl trl where res: "res = (rl, trl)" by (cases res)
    from l res have "chat_loop_while env self' fuel
       (trc @ [Write (nl @ ''MCP Client Started!'' @ nl),
               Write (''Type your queries or '' @ [CHR 0x27] @ ''quit'' @ [CHR 0x27] @ '' to exit.'' @ nl)]) =
       Some (rl, trl)"
      by (simp add: chat_loop_def py_print_def)
    from chat_loop_while_no_AClose[OF this] obtain a2 where
      a2: "trl = (trc @ [Write (nl @ ''MCP Client Started!'' @ nl),
               Write (''Type your queries or '' @ [CHR 0x27] @ ''quit'' @ [CHR 0x27] @ '' to exit.'' @ nl)]) @ a2"
          "\<forall>a \<in> set a2. \<not> is_AClose a" by blast
    from t res have "tr = trl @ [AClose]" by (simp add: finally_cleanup_trace)
    with a1 a2 show ?thesis by auto
  qed
qed

text \<open>
  Claim C10. Once the client object exists, every execution of \<open>main\<close> that ends,
  whether \<open>connect_to_server\<close> and \<open>chat_loop\<close> completed or raised, has called
  \<open>cleanup\<close>: closing the exit stack is the last action of the trace, and it happens
  exactly once. The run ends in the same way whatever fuel is added.
\<close>

theorem cleanup_always_runs:
  "main env fuel = Some (r, tr) \<Longrightarrow> reply_anthropic env [NewAnthropic] = None \<Longrightarrow>
   tr \<noteq> [] \<and> last tr = AClose \<and> length (filter is_AClose tr) = 1 \<and>
   main env (fuel + k) = Some (r, tr)"
proof -
  assume m: "main env fuel = Some (r, tr)" and c: "reply_anthropic env [NewAnthropic] = None"
  from main_trace[OF m c] obtain acts where
    a: "tr = acts @ [AClose]" "\<forall>a \<in> set acts. \<not> is_AClose a" by blast
  have "filter is_AClose acts = []" using a(2) by (intro filter_none) blast
  with a(1) main_more_fuel[OF m, of k] show ?thesis by simp
qed

theorem cleanup_always_runs_witness:
  "main (script_env [Inr ''quit''] []) 1 =
     Some (Inr (),
       [NewAnthropic,
        EnterStdioClient ''uvx''
          [''mcp-server-fetch'', ''--ignore-robots-txt'', ''--proxy-url'', ''http://127.0.0.1:7897''],
        EnterClientSession, Initialize, ListTools,
        Write (nl @ ''Connected to server with tools: <repr>'' @ nl),
        Write (nl @ ''MCP Client Started!'' @ nl),
        Write (''Type your queries or '' @ [CHR 0x27] @ ''quit'' @ [CHR 0x27] @ '' to exit.'' @ nl),
        Input (nl @ ''Query: ''), AClose])
   \<and> main refused_env 0 =
     Some (Inl (Exception ''McpError'' ''Connection closed''),
       [NewAnthropic,
        EnterStdioClient ''uvx''
          [''mcp-server-fetch'', ''--ignore-robots-txt'', ''--proxy-url'', ''http://127.0.0.1:7897''],
        EnterClientSession, Initialize, AClose])
   \<and> main cancel_env 5 =
     Some (Inl (BaseException ''CancelledError'' ''''),
       [NewAnthropic,
        EnterStdioClient ''uvx''
          [''mcp-server-fetch'', ''--ignore-robots-txt'', ''--proxy-url'', ''http://127.0.0.1:7897''],
        EnterClientSession, Initialize, ListTools, AClose])
   \<and> main (script_env [Inr ''quit''] []) 4 = main (script_env [Inr ''quit''] []) 1"
proof -
  let ?t1 = "[NewAnthropic,
        EnterStdioClient ''uvx''
          [''mcp-server-fetch'', ''--ignore-robots-txt'', ''--proxy-url'', ''http://127.0.0.1:7897''],
        EnterClientSession, Initialize, ListTools,
        Write (nl @ ''Connected to server with tools: <repr>'' @ nl),
        Write (nl @ ''MCP Client Started!'' @ nl),
        Write (''Type your queries or '' @ [CHR 0x27] @ ''quit'' @ [CHR 0x27] @ '' to exit.'' @ nl),
        Input (nl @ ''Query: ''), AClose]"
  let ?t2 = "[NewAnthropic,
        EnterStdioClient ''uvx''
          [''mcp-server-fetch'', ''--ignore-robots-txt'', ''--proxy-url'', ''http://127.0.0.1:7897''],
        EnterClientSession, Initialize, AClose]"
  let ?t3 = "[NewAnthropic,
        EnterStdioClient ''uvx''
          [''mcp-server-fetch'', ''--ignore-robots-txt'', ''--proxy-url'', ''http://127.0.0.1:7897''],
        EnterClientSession, Initialize, ListTools, AClose]"
  have m1: "main (script_env [Inr ''quit''] []) 1 = Some (Inr (), ?t1)"
    by (simp add: main_def connect_to_server_def chat_loop_def finally_cleanup_def cleanup_def
        script_env_def quiet_env_def nth_reply_def py_print_def Let_def
        strip_def lower_def isspace_def lower_char_def)
  have m2: "main refused_env 0 = Some (Inl (Exception ''McpError'' ''Connection closed''), ?t2)"
    by (simp add: main_def connect_to_server_def finally_cleanup_def cleanup_def
        refused_env_def quiet_env_def Let_def)
  have m3: "main cancel_env 5 = Some (Inl (BaseException ''CancelledError'' ''''), ?t3)"
    by (simp add: main_def connect_to_server_def finally_cleanup_def cleanup_def
        cancel_env_def script_env_def quiet_env_def Let_def)
  have o1: "reply_anthropic (script_env [Inr ''quit''] []) [NewAnthropic] = None"
    by (simp add: script_env_def quiet_env_def)
  have o2: "reply_anthropic refused_env [NewAnthropic] = None"
    by (simp add: refused_env_def quiet_env_def)
  have o3: "reply_anthropic cancel_env [NewAnthropic] = None"
    by (simp add: cancel_env_def script_env_def quiet_env_def)
  from cleanup_always_runs[OF m1 o1, of 3] cleanup_always_runs[OF m2 o2, of 0]
       cleanup_always_runs[OF m3 o3, of 0] m1 m2 m3
  show ?thesis by simp
qed

subsection \<open>The shape of a successful process_query\<close>








subsection \<open>Tool calls per query\<close>





subsection \<open>Tool results are fed back to the model\<close>








subsection \<open>Independence from the history of the session\<close>

lemma env_after_simps:
  "getenv (env_after env tr) = getenv env"
  "py_repr (env_after env tr) = py_repr env"
  "loads (env_after env tr) = loads env"
  "reply_list_tools (env_after env tr) h = reply_list_tools env (tr @ h)"
  "reply_create (env_after env tr) h = reply_create env (tr @ h)"
  "reply_call_tool (env_after env tr) h = reply_call_tool env (tr @ h)"
  by (simp_all add: env_after_def)

lemma tool_result_text_after: "tool_result_text (env_after env tr) result = tool_result_text env result"
  by (simp add: tool_result_text_def env_after_simps split: list.splits content_item.splits)

lemma follow_up_request_after: "follow_up_request (env_after env tr) msgs = follow_up_request env msgs"
  by (simp add: follow_up_request_def env_after_simps)

lemma first_request_after: "first_request (env_after env tr) msgs ts = first_request env msgs ts"
  by (simp add: first_request_def env_after_simps)

lemma follow_up_loop_eq:
  "follow_up_loop cs t tr = (t @ stream_text cs, tr @ stream_actions cs)"
  by (induction cs t tr rule: follow_up_loop.induct) (simp_all add: print_streaming_text_actions)

lemma print_streaming_text_after:
  "print_streaming_text s d (tr @ h) = tr @ print_streaming_text s d h"
  by (simp add: print_streaming_text_actions)

lemma on_chunk_after:
  "on_chunk env c s (tr @ h) =
     (fst (on_chunk (env_after env tr) c s h), tr @ snd (on_chunk (env_after env tr) c s h))"
proof (cases "(env, c, s, tr @ h)" rule: on_chunk.cases)
  case (5 env' text_chunk s' tr')
  then show ?thesis using print_streaming_text_after[of text_chunk 10 tr h] by auto
next
  case (8 env' s' tr')
  then show ?thesis
    by (auto simp: env_after_simps Let_def split: sum.splits exn.splits)
qed auto

lemma process_stream_after:
  "process_stream env cs s (tr @ h) =
     (fst (process_stream (env_after env tr) cs s h),
      tr @ snd (process_stream (env_after env tr) cs s h))"
proof (induction cs arbitrary: s h)
  case Nil
  then show ?case by simp
next
  case (Cons c cs)
  show ?case
  proof (cases "c = MessageStop")
    case True
    then show ?thesis by simp
  next
    case False
    obtain r h1 where oc: "on_chunk (env_after env tr) c s h = (r, h1)"
      by (cases "on_chunk (env_after env tr) c s h")
    with on_chunk_after[of env c s tr h] have oc': "on_chunk env c s (tr @ h) = (r, tr @ h1)"
      by simp
    show ?thesis
    proof (cases r)
      case (Inl e)
      with oc oc' False show ?thesis by simp
    next
      case (Inr s1)
      with oc oc' False Cons.IH[of s1 h1] show ?thesis by simp
    qed
  qed
qed

lemma tool_call_body_after:
  "tool_call_body env acc tc ls (tr @ h) =
     (fst (tool_call_body (env_after env tr) acc tc ls h),
      tr @ snd (tool_call_body (env_after env tr) acc tc ls h))"
  unfolding tool_call_body_def Let_def py_print_def follow_up_loop_eq
  by (simp add: env_after_simps tool_result_text_after follow_up_request_after split: sum.splits)

lemma tool_calls_loop_after:
  "tool_calls_loop env acc tcs ls (tr @ h) =
     (fst (tool_calls_loop (env_after env tr) acc tcs ls h),
      tr @ snd (tool_calls_loop (env_after env tr) acc tcs ls h))"
proof (induction tcs arbitrary: ls h)
  case Nil
  then show ?case by simp
next
  case (Cons tc tcs)
  obtain r h1 where b: "tool_call_body (env_after env tr) acc tc ls h = (r, h1)"
    by (cases "tool_call_body (env_after env tr) acc tc ls h")
  with tool_call_body_after[of env acc tc ls tr h]
  have b': "tool_call_body env acc tc ls (tr @ h) = (r, tr @ h1)" by simp
  show ?case
  proof (cases r)
    case (Inl e)
    with b b' show ?thesis by simp
  next
    case (Inr ls1)
    with b b' Cons.IH[of ls1 h1] show ?thesis by simp
  qed
qed

lemma process_query_after:
  "process_query env self q tr =
     (fst (process_query (env_after env tr) self q []),
      tr @ snd (process_query (env_after env tr) self q []))"
proof (cases "session self")
  case None
  then show ?thesis by (simp add: process_query_def)
next
  case (Some sess)
  let ?E = "env_after env tr"
  have lt: "reply_list_tools ?E [ListTools] = reply_list_tools env (tr @ [ListTools])"
    by (simp add: env_after_simps)
  show ?thesis
  proof (cases "reply_list_tools env (tr @ [ListTools])")
    case (Inl e)
    with Some lt show ?thesis by (simp add: process_query_def)
  next
    case (Inr ts)
    let ?h3 = "[ListTools, Write (nl @ robot @ '' Claude is thinking...'' @ nl),
                CreateMessage (first_request env [\<lparr>role = ''user'', content = q\<rparr>] (map tool_to_spec ts))]"
    have fr: "first_request ?E = first_request env"
      by (simp add: first_request_after fun_eq_iff)
    have rc: "reply_create ?E ?h3 = reply_create env (tr @ ?h3)"
      by (simp add: env_after_simps)
    show ?thesis
    proof (cases "reply_create env (tr @ ?h3)")
      case (Inl e)
      with Some lt Inr rc fr show ?thesis
        by (simp add: process_query_def Let_def py_print_def)
    next
      case chunks: (Inr chunks)
      let ?h4 = "?h3 @ [Write (nl @ speech @ '' '')]"
      obtain r h5 where ps: "process_stream ?E chunks init_stream_state ?h4 = (r, h5)"
        by (cases "process_stream ?E chunks init_stream_state ?h4")
      with process_stream_after[of env chunks init_stream_state tr ?h4]
      have ps': "process_stream env chunks init_stream_state (tr @ ?h4) = (r, tr @ h5)" by simp
      show ?thesis
      proof (cases r)
        case (Inl e)
        with Some lt Inr rc fr chunks ps ps' show ?thesis
          by (simp add: process_query_def Let_def py_print_def)
      next
        case s: (Inr s)
        let ?ls = "\<lparr>messages = [\<lparr>role = ''user'', content = q\<rparr>],
                     final_text = (if accumulated_text s \<noteq> [] then [accumulated_text s] else []),
                     tool_results = []\<rparr>"
        obtain r2 h6 where tl:
          "tool_calls_loop ?E (accumulated_text s) (tool_calls s) ?ls h5 = (r2, h6)"
          by (cases "tool_calls_loop ?E (accumulated_text s) (tool_calls s) ?ls h5")
        with tool_calls_loop_after[of env "accumulated_text s" "tool_calls s" ?ls tr h5]
        have tl': "tool_calls_loop env (accumulated_text s) (tool_calls s) ?ls (tr @ h5) = (r2, tr @ h6)"
          by simp
        show ?thesis
        proof (cases r2)
          case (Inl e)
          with Some lt Inr rc fr chunks ps ps' s tl tl' show ?thesis
            by (simp add: process_query_def Let_def py_print_def)
        next
          case ls: (Inr ls)
          with Some lt Inr rc fr chunks ps ps' s tl tl' show ?thesis
            by (simp add: process_query_def Let_def py_print_def)
        qed
      qed
    qed
  qed
qed

lemma process_query_first_request:
  assumes "session self = Some sess" and "reply_list_tools env (tr @ [ListTools]) = Inr ts"
  shows "\<exists>rest. snd (process_query env self q tr) =
           tr @ ListTools # Write (nl @ robot @ '' Claude is thinking...'' @ nl) #
           CreateMessage (first_request env [\<lparr>role = ''user'', content = q\<rparr>] (map tool_to_spec ts)) #
           rest"
proof -
  have ps: "\<exists>acts. b = t @ acts"
    if "process_stream env cs s0 t = (r, b)" for cs s0 t r b
    using process_stream_local[of env cs s0 t] that by auto
  have tl: "\<exists>acts. b = t @ acts"
    if "tool_calls_loop env acc tcs ls0 t = (r, b)" for acc tcs ls0 t r b
    using tool_calls_loop_acts[of env acc tcs ls0 t] that by auto
  show ?thesis
    unfolding process_query_def Let_def py_print_def using assms
    apply (simp split: sum.splits prod.splits)
    apply (intro allI impI conjI)
    apply (auto dest!: ps tl)
    done
qed

text \<open>
  Claim C7. A call of \<open>process_query\<close> on a connected client whose tool listing
  succeeds sends, as its first request to the model, the message list that holds the
  current query and nothing else. The outcome of the call and the actions it adds to the
  trace are the same for any two histories after which the environment answers alike:
  nothing of the queries processed before is carried into the call.
\<close>

theorem no_conversation_state_across_queries:
  "(session self = Some sess \<and> reply_list_tools env (tr @ [ListTools]) = Inr ts \<longrightarrow>
      (\<exists>rest. snd (process_query env self q tr) =
         tr @ ListTools # Write (nl @ robot @ '' Claude is thinking...'' @ nl) #
         CreateMessage (first_request env [\<lparr>role = ''user'', content = q\<rparr>] (map tool_to_spec ts)) #
         rest)
      \<and> req_messages (first_request env [\<lparr>role = ''user'', content = q\<rparr>] (map tool_to_spec ts)) =
          [\<lparr>role = ''user'', content = q\<rparr>])
   \<and> (env_after env1 tr1 = env_after env2 tr2 \<longrightarrow>
      fst (process_query env1 self q tr1) = fst (process_query env2 self q tr2) \<and>
      drop (length tr1) (snd (process_query env1 self q tr1)) =
      drop (length tr2) (snd (process_query env2 self q tr2)))"
proof (intro conjI impI)
  assume a: "session self = Some sess \<and> reply_list_tools env (tr @ [ListTools]) = Inr ts"
  then show "\<exists>rest. snd (process_query env self q tr) =
         tr @ ListTools # Write (nl @ robot @ '' Claude is thinking...'' @ nl) #
         CreateMessage (first_request env [\<lparr>role = ''user'', content = q\<rparr>] (map tool_to_spec ts)) #
         rest"
    using process_query_first_request by blast
  show "req_messages (first_request env [\<lparr>role = ''user'', content = q\<rparr>] (map tool_to_spec ts)) =
          [\<lparr>role = ''user'', content = q\<rparr>]"
    by (simp add: first_request_def)
next
  assume e: "env_after env1 tr1 = env_after env2 tr2"
  have p1: "process_query env1 self q tr1 =
     (fst (process_query (env_after env1 tr1) self q []),
      tr1 @ snd (process_query (env_after env1 tr1) self q []))"
    by (rule process_query_after)
  have p2: "process_query env2 self q tr2 =
     (fst (process_query (env_after env2 tr2) self q []),
      tr2 @ snd (process_query (env_after env2 tr2) self q []))"
    by (rule process_query_after)
  show "fst (process_query env1 self q tr1) = fst (process_query env2 self q tr2)"
    using e by (simp add: p1 p2)
  show "drop (length tr1) (snd (process_query env1 self q tr1)) =
        drop (length tr2) (snd (process_query env2 self q tr2))"
    using e by (simp add: p1 p2)
qed

lemma asks_with_tools_after:
  "\<not> asks_with_tools tr \<Longrightarrow> asks_with_tools (tr @ h) = asks_with_tools h"
  by (cases h rule: rev_cases) (simp_all add: asks_with_tools_def)

lemma tool_then_text_env_after:
  "\<not> asks_with_tools tr \<Longrightarrow> env_after tool_then_text_env tr = tool_then_text_env"
  by (simp add: env_after_def tool_then_text_env_def quiet_env_def asks_with_tools_after)

theorem no_conversation_state_across_queries_witness:
  "env_after tool_then_text_env [Input (nl @ ''Query: '')] =
   env_after tool_then_text_env
     (snd (process_query tool_then_text_env connected ''first'' [Input (nl @ ''Query: '')]) @
      [Write (nl @ ''ok'' @ nl), Input (nl @ ''Query: '')])
   \<and> fst (process_query tool_then_text_env connected ''second'' [Input (nl @ ''Query: '')]) = Inr ''ok''
   \<and> fst (process_query tool_then_text_env connected ''second''
        (snd (process_query tool_then_text_env connected ''first'' [Input (nl @ ''Query: '')]) @
         [Write (nl @ ''ok'' @ nl), Input (nl @ ''Query: '')])) = Inr ''ok''
   \<and> drop (length [Input (nl @ ''Query: '')])
        (snd (process_query tool_then_text_env connected ''second'' [Input (nl @ ''Query: '')])) =
      drop (length
             (snd (process_query tool_then_text_env connected ''first'' [Input (nl @ ''Query: '')]) @
              [Write (nl @ ''ok'' @ nl), Input (nl @ ''Query: '')]))
        (snd (process_query tool_then_text_env connected ''second''
           (snd (process_query tool_then_text_env connected ''first'' [Input (nl @ ''Query: '')]) @
            [Write (nl @ ''ok'' @ nl), Input (nl @ ''Query: '')])))
   \<and> session connected = Some ClientSession
   \<and> reply_list_tools tool_then_text_env ([Input (nl @ ''Query: '')] @ [ListTools]) = Inr [demo_tool]
   \<and> (\<exists>rest. snd (process_query tool_then_text_env connected ''second'' [Input (nl @ ''Query: '')]) =
         [Input (nl @ ''Query: '')] @ ListTools # Write (nl @ robot @ '' Claude is thinking...'' @ nl) #
         CreateMessage (first_request tool_then_text_env [\<lparr>role = ''user'', content = ''second''\<rparr>]
                          (map tool_to_spec [demo_tool])) # rest)"
proof -
  let ?E = "tool_then_text_env"
  let ?t1 = "[Input (nl @ ''Query: '')]"
  let ?t2 = "snd (process_query ?E connected ''first'' ?t1) @
             [Write (nl @ ''ok'' @ nl), Input (nl @ ''Query: '')]"
  have n1: "\<not> asks_with_tools ?t1" by (simp add: asks_with_tools_def)
  have n2: "\<not> asks_with_tools ?t2" by (simp add: asks_with_tools_def)
  have e: "env_after ?E ?t1 = env_after ?E ?t2"
    using tool_then_text_env_after[OF n1] tool_then_text_env_after[OF n2] by simp
  have s: "session connected = Some ClientSession" by (simp add: connected_def)
  have l: "reply_list_tools ?E (?t1 @ [ListTools]) = Inr [demo_tool]"
    by (simp add: tool_then_text_env_def quiet_env_def)
  have f: "fst (process_query ?E connected ''second'' ?t1) = Inr ''ok''"
    by (simp add: process_query_def tool_then_text_env_def quiet_env_def connected_def
        asks_with_tools_def py_print_def Let_def init_stream_state_def tool_use_block_def
        demo_loads_def set_last_input_def tool_call_body_def tool_result_text_def
        first_request_def follow_up_request_def)
  from no_conversation_state_across_queries
         [of connected ClientSession ?E ?t1 "[demo_tool]" "''second''" ?E ?t1 ?E ?t2]
       e s l f
  show ?thesis by simp
qed

end
